theory Spec2Isabelle
  imports Main "HOL-Library.Word"
begin

unbundle bit_operations_syntax

section \<open>Health checks of the Cloud SQL Auth proxy\<close>

text \<open>
  The package \<^verbatim>\<open>healthcheck\<close> is present in three revisions, all embedded here:
  \<^item> \<^verbatim>\<open>src/unnamed/part_000\<close>: type \<^verbatim>\<open>HC\<close> with its own mutex \<^verbatim>\<open>startedL\<close>,
    \<^verbatim>\<open>NotifyStarted\<close>, \<^verbatim>\<open>isLive\<close>, \<^verbatim>\<open>isReady\<close>;
  \<^item> \<^verbatim>\<open>src/healthcheck/healthcheck.go\<close>: type \<^verbatim>\<open>HC\<close> (here \<open>HC_healthcheck\<close>),
    package-level mutexes, \<^verbatim>\<open>NotifyReadyForConnections\<close>, \<^verbatim>\<open>livenessTest\<close>,
    \<^verbatim>\<open>readinessTest\<close>;
  \<^item> \<^verbatim>\<open>src/unnamed/part_001\<close>: type \<^verbatim>\<open>HealthCheck\<close>, \<^verbatim>\<open>NotifyReady\<close>,
    \<^verbatim>\<open>livenessTest\<close> and \<^verbatim>\<open>readinessTest\<close> (here with the suffix \<open>_part_001\<close>).

  Go passes the tracker and the proxy client by pointer and mutates them in place. The
  embedding passes a world that holds the two objects; an operation returns its result
  together with the new world, or the fault that stops it. Operations run one at a time,
  each to its end.

  The HTTP server and the two handlers that map an answer to the status 200 or 500 are
  transport and are not embedded. (In healthcheck.go and part_001 the handlers also keep
  the last answer in the fields \<^verbatim>\<open>ready\<close> and \<^verbatim>\<open>live\<close>; the functions embedded
  here never touch these two fields.)
\<close>

subsection \<open>The connection source\<close>

text \<open>
  Modelled from the spec: the struct \<^verbatim>\<open>proxy.Client\<close> is declared in the package
  \<^verbatim>\<open>proxy/proxy\<close>, which is not among the sources. The health check uses two of its
  fields, the configured maximum (zero meaning no limit) and the current connection
  count. Both are \<^verbatim>\<open>uint64\<close>: the count is read with \<^verbatim>\<open>atomic.LoadUint64\<close> and
  changed with \<^verbatim>\<open>atomic.AddUint64\<close>, and Go only compares values of one type.
\<close>

record Client =
  MaxConnections :: "64 word"
  ConnectionsCounter :: "64 word"

subsection \<open>Faults, mutexes and observable events\<close>

text \<open>
  What stops a sequential run: a field access through a nil pointer panics; \<^verbatim>\<open>Lock\<close> on
  a mutex that is held never returns (one thread of control, \<^verbatim>\<open>sync.Mutex\<close> is not
  reentrant); \<^verbatim>\<open>Unlock\<close> of a mutex that is not held is a fatal error.
\<close>

datatype fault = NilPointerDereference | Deadlock | UnlockOfUnlockedMutex

datatype mutex = Unlocked | Locked

definition Lock :: "mutex \<Rightarrow> fault + mutex" where
  "Lock m = (case m of Unlocked \<Rightarrow> Inr Locked | Locked \<Rightarrow> Inl Deadlock)"

definition Unlock :: "mutex \<Rightarrow> fault + mutex" where
  "Unlock m = (case m of Locked \<Rightarrow> Inr Unlocked | Unlocked \<Rightarrow> Inl UnlockOfUnlockedMutex)"

text \<open>
  The accesses to the shared counter and the lines printed, in the order they happen:
  \<open>AtomicLoad v\<close> is an \<^verbatim>\<open>atomic.LoadUint64\<close> that read \<open>v\<close>, \<open>AtomicAdd d\<close> an
  \<^verbatim>\<open>atomic.AddUint64\<close> with delta \<open>d\<close>, \<open>Errorf f args\<close> a call of \<^verbatim>\<open>logging.Errorf\<close>,
  \<open>Printf f\<close> a call of \<^verbatim>\<open>fmt.Printf\<close>.
\<close>

datatype event =
    AtomicLoad "64 word"
  | AtomicAdd "64 word"
  | Errorf string "64 word list"
  | Printf string

text \<open>
  The world: the object behind the pointer \<^verbatim>\<open>c *proxy.Client\<close> and the one behind the
  tracker pointer \<^verbatim>\<open>hc\<close> (\<open>None\<close> when the pointer is nil), the package-level
  variables, and the events so far.
\<close>

record ('h, 'g) world =
  client :: "Client option"
  tracker :: "'h option"
  globals :: 'g
  trace :: "event list"

type_synonym ('a, 'h, 'g) prog = "('h, 'g) world \<Rightarrow> fault + 'a \<times> ('h, 'g) world"

definition ret :: "'a \<Rightarrow> ('a, 'h, 'g) prog" where
  "ret x = (\<lambda>w. Inr (x, w))"

definition halt :: "fault \<Rightarrow> ('a, 'h, 'g) prog" where
  "halt e = (\<lambda>w. Inl e)"

definition andthen :: "('a, 'h, 'g) prog \<Rightarrow> ('a \<Rightarrow> ('b, 'h, 'g) prog) \<Rightarrow> ('b, 'h, 'g) prog" where
  "andthen m f = (\<lambda>w. case m w of Inl e \<Rightarrow> Inl e | Inr (x, w') \<Rightarrow> f x w')"

text \<open>Go's \<^verbatim>\<open>p && q\<close>: \<open>q\<close> runs only when \<open>p\<close> gave true.\<close>

definition and_also :: "(bool, 'h, 'g) prog \<Rightarrow> (bool, 'h, 'g) prog \<Rightarrow> (bool, 'h, 'g) prog" where
  "and_also p q = andthen p (\<lambda>a. if a then q else ret False)"

text \<open>
  Go's \<^verbatim>\<open>defer d\<close> in front of the rest of a function body: \<open>d\<close> runs when the body
  returns, whichever \<^verbatim>\<open>return\<close> it takes, and the body's result is returned.
\<close>

definition deferring :: "('b, 'h, 'g) prog \<Rightarrow> ('a, 'h, 'g) prog \<Rightarrow> ('a, 'h, 'g) prog" where
  "deferring d body = andthen body (\<lambda>r. andthen d (\<lambda>_. ret r))"

definition emit :: "event \<Rightarrow> (unit, 'h, 'g) prog" where
  "emit e = (\<lambda>w. Inr ((), w\<lparr>trace := trace w @ [e]\<rparr>))"

definition deref_c :: "(Client, 'h, 'g) prog" where
  "deref_c = (\<lambda>w. case client w of None \<Rightarrow> Inl NilPointerDereference | Some c \<Rightarrow> Inr (c, w))"

definition store_c :: "Client \<Rightarrow> (unit, 'h, 'g) prog" where
  "store_c c = (\<lambda>w. Inr ((), w\<lparr>client := Some c\<rparr>))"

definition deref_hc :: "('h, 'h, 'g) prog" where
  "deref_hc = (\<lambda>w. case tracker w of None \<Rightarrow> Inl NilPointerDereference | Some h \<Rightarrow> Inr (h, w))"

definition store_hc :: "'h \<Rightarrow> (unit, 'h, 'g) prog" where
  "store_hc h = (\<lambda>w. Inr ((), w\<lparr>tracker := Some h\<rparr>))"

definition hc_is_nil :: "(bool, 'h, 'g) prog" where
  "hc_is_nil = (\<lambda>w. Inr (tracker w = None, w))"

text \<open>\<^verbatim>\<open>c.MaxConnections\<close>\<close>

definition get_MaxConnections :: "(64 word, 'h, 'g) prog" where
  "get_MaxConnections = andthen deref_c (\<lambda>c. ret (MaxConnections c))"

text \<open>\<^verbatim>\<open>atomic.LoadUint64(&c.ConnectionsCounter)\<close>\<close>

definition atomic_LoadUint64 :: "(64 word, 'h, 'g) prog" where
  "atomic_LoadUint64 =
     andthen deref_c (\<lambda>c.
     andthen (emit (AtomicLoad (ConnectionsCounter c))) (\<lambda>_.
     ret (ConnectionsCounter c)))"

text \<open>
  \<^verbatim>\<open>atomic.AddUint64(&c.ConnectionsCounter, delta)\<close>: adds modulo \<open>2^64\<close>, stores
  the sum and returns it.
\<close>

definition atomic_AddUint64 :: "64 word \<Rightarrow> (64 word, 'h, 'g) prog" where
  "atomic_AddUint64 delta =
     andthen deref_c (\<lambda>c.
     andthen (store_c (c\<lparr>ConnectionsCounter := ConnectionsCounter c + delta\<rparr>)) (\<lambda>_.
     andthen (emit (AtomicAdd delta)) (\<lambda>_.
     ret (ConnectionsCounter c + delta))))"

definition logging_Errorf :: "string \<Rightarrow> 64 word list \<Rightarrow> (unit, 'h, 'g) prog" where
  "logging_Errorf f args = emit (Errorf f args)"

definition fmt_Printf :: "string \<Rightarrow> (unit, 'h, 'g) prog" where
  "fmt_Printf f = emit (Printf f)"

subsection \<open>\<^verbatim>\<open>src/unnamed/part_000\<close>\<close>

text \<open>
  The struct \<^verbatim>\<open>HC\<close>. The field \<^verbatim>\<open>srv\<close>, a pointer to the HTTP server, belongs to the
  transport and is left out.
\<close>

record HC =
  startedL :: mutex
  started :: bool
  port :: string

text \<open>
  \<^verbatim>\<open>NewHealthCheck(c, port)\<close> returns \<^verbatim>\<open>(hc, nil)\<close>, or \<^verbatim>\<open>(nil, err)\<close> when
  \<^verbatim>\<open>net.Listen\<close> fails. The second argument here is what \<^verbatim>\<open>net.Listen\<close> answers
  (\<open>None\<close> for a nil error); the result is the error, and the world's tracker is what
  \<^verbatim>\<open>hc\<close> points to afterwards. The new tracker has the zero values of \<^verbatim>\<open>startedL\<close>
  and \<^verbatim>\<open>started\<close>.
\<close>

definition NewHealthCheck :: "string \<Rightarrow> string option \<Rightarrow> (string option, HC, 'g) prog" where
  "NewHealthCheck p listen_err =
     (case listen_err of
        Some err \<Rightarrow> (\<lambda>w. Inr (Some err, w\<lparr>tracker := None\<rparr>))
      | None \<Rightarrow>
          andthen (store_hc \<lparr>startedL = Unlocked, started = False, port = p\<rparr>) (\<lambda>_.
          ret None))"

text \<open>\<^verbatim>\<open>hc.startedL.Lock()\<close> and \<^verbatim>\<open>hc.startedL.Unlock()\<close>\<close>

definition startedL_Lock :: "(unit, HC, 'g) prog" where
  "startedL_Lock =
     andthen deref_hc (\<lambda>hc.
     case Lock (startedL hc) of
       Inl e \<Rightarrow> halt e
     | Inr m \<Rightarrow> store_hc (hc\<lparr>startedL := m\<rparr>))"

definition startedL_Unlock :: "(unit, HC, 'g) prog" where
  "startedL_Unlock =
     andthen deref_hc (\<lambda>hc.
     case Unlock (startedL hc) of
       Inl e \<Rightarrow> halt e
     | Inr m \<Rightarrow> store_hc (hc\<lparr>startedL := m\<rparr>))"

definition NotifyStarted :: "(unit, HC, 'g) prog" where
  "NotifyStarted =
     andthen startedL_Lock (\<lambda>_.
     andthen (andthen deref_hc (\<lambda>hc. store_hc (hc\<lparr>started := True\<rparr>))) (\<lambda>_.
     startedL_Unlock))"

definition isLive :: "(bool, HC, 'g) prog" where
  "isLive = ret True"

definition isReady :: "(bool, HC, 'g) prog" where
  "isReady =
     andthen startedL_Lock (\<lambda>_.
     andthen (andthen deref_hc (\<lambda>hc. ret (started hc))) (\<lambda>started.
     andthen startedL_Unlock (\<lambda>_.
     if \<not> started then
       andthen (logging_Errorf ''Readiness failed because proxy has not finished starting up.'' []) (\<lambda>_.
       ret False)
     else
       andthen (and_also
                  (andthen get_MaxConnections (\<lambda>m. ret (m > 0)))
                  (andthen atomic_LoadUint64 (\<lambda>n.
                   andthen get_MaxConnections (\<lambda>m. ret (n \<ge> m))))) (\<lambda>at_limit.
       if at_limit then
         andthen get_MaxConnections (\<lambda>m.
         andthen (logging_Errorf ''Readiness failed because proxy has reached the maximum connections limit (%d).'' [m]) (\<lambda>_.
         ret False))
       else ret True))))"

subsection \<open>\<^verbatim>\<open>src/healthcheck/healthcheck.go\<close>\<close>

text \<open>
  The package-level mutexes. \<^verbatim>\<open>readinessMutex\<close> and \<^verbatim>\<open>livenessMutex\<close> are taken by
  the HTTP handlers only; \<^verbatim>\<open>startupMutex\<close> guards \<^verbatim>\<open>started\<close>.
\<close>

record globals =
  readinessMutex :: mutex
  livenessMutex :: mutex
  startupMutex :: mutex

text \<open>The struct \<^verbatim>\<open>HC\<close> of this revision, again without \<^verbatim>\<open>srv\<close>.\<close>

record HC_healthcheck =
  live :: bool
  ready :: bool
  started :: bool

text \<open>\<^verbatim>\<open>NewHealthCheck(proxyClient)\<close>: \<^verbatim>\<open>&HC{live: true, srv: srv}\<close>.\<close>

definition NewHealthCheck_healthcheck :: "(unit, HC_healthcheck, 'g) prog" where
  "NewHealthCheck_healthcheck = store_hc \<lparr>live = True, ready = False, started = False\<rparr>"

definition startupMutex_Lock :: "(unit, 'h, globals) prog" where
  "startupMutex_Lock =
     (\<lambda>w. case Lock (startupMutex (globals w)) of
        Inl e \<Rightarrow> Inl e
      | Inr m \<Rightarrow> Inr ((), w\<lparr>globals := (globals w)\<lparr>startupMutex := m\<rparr>\<rparr>))"

definition startupMutex_Unlock :: "(unit, 'h, globals) prog" where
  "startupMutex_Unlock =
     (\<lambda>w. case Unlock (startupMutex (globals w)) of
        Inl e \<Rightarrow> Inl e
      | Inr m \<Rightarrow> Inr ((), w\<lparr>globals := (globals w)\<lparr>startupMutex := m\<rparr>\<rparr>))"

definition NotifyReadyForConnections :: "(unit, HC_healthcheck, globals) prog" where
  "NotifyReadyForConnections =
     andthen hc_is_nil (\<lambda>is_nil.
     if \<not> is_nil then
       andthen startupMutex_Lock (\<lambda>_.
       andthen (andthen deref_hc (\<lambda>hc. store_hc (hc\<lparr>started := True\<rparr>))) (\<lambda>_.
       startupMutex_Unlock))
     else ret ())"

definition livenessTest :: "(bool, HC_healthcheck, globals) prog" where
  "livenessTest = ret True"

definition readinessTest :: "(bool, HC_healthcheck, globals) prog" where
  "readinessTest =
     andthen startupMutex_Lock (\<lambda>_.
     andthen (andthen deref_hc (\<lambda>hc. ret (started hc))) (\<lambda>hc_started.
     if \<not> hc_started then
       andthen startupMutex_Unlock (\<lambda>_.
       ret False)
     else
       andthen startupMutex_Unlock (\<lambda>_.
       andthen (and_also
                  (andthen get_MaxConnections (\<lambda>m. ret (m > 0)))
                  (andthen atomic_LoadUint64 (\<lambda>n.
                   andthen get_MaxConnections (\<lambda>m. ret (n \<ge> m))))) (\<lambda>at_limit.
       if at_limit then ret False
       else ret True))))"

subsection \<open>\<^verbatim>\<open>src/unnamed/part_001\<close>\<close>

text \<open>
  The struct \<^verbatim>\<open>HealthCheck\<close>. This revision has no mutex; it prints a line with
  \<^verbatim>\<open>fmt.Printf\<close> at each step.
\<close>

record HealthCheck =
  live :: bool
  ready :: bool
  started :: bool

definition NotifyReady :: "(unit, HealthCheck, 'g) prog" where
  "NotifyReady =
     andthen (fmt_Printf ''ready notification received\<newline>'') (\<lambda>_.
     andthen deref_hc (\<lambda>hc. store_hc (hc\<lparr>started := True\<rparr>)))"

definition livenessTest_part_001 :: "(bool, HealthCheck, 'g) prog" where
  "livenessTest_part_001 =
     andthen (fmt_Printf ''running liveness test\<newline>'') (\<lambda>_.
     ret True)"

text \<open>
  \<^verbatim>\<open>^uint64(0)\<close> is \<open>NOT 0\<close>, the word \<open>2^64 - 1\<close>. The deferred call is registered
  after the check of \<^verbatim>\<open>started\<close>, so it runs on the two returns below it only.
\<close>

definition readinessTest_part_001 :: "(bool, HealthCheck, 'g) prog" where
  "readinessTest_part_001 =
     andthen (fmt_Printf ''running readiness test\<newline>'') (\<lambda>_.
     andthen (andthen deref_hc (\<lambda>hc. ret (started hc))) (\<lambda>hc_started.
     if \<not> hc_started then
       andthen (fmt_Printf ''readiness test failed because startup was not completed\<newline>'') (\<lambda>_.
       ret False)
     else
       andthen (atomic_AddUint64 1) (\<lambda>active.
       deferring (atomic_AddUint64 (NOT 0))
         (andthen (and_also
                     (andthen get_MaxConnections (\<lambda>m. ret (m > 0)))
                     (andthen get_MaxConnections (\<lambda>m. ret (active > m)))) (\<lambda>over_limit.
          if over_limit then ret False
          else ret True)))))"

subsection \<open>Sequences of calls\<close>

text \<open>
  The three operations a caller has, and a sequence of them run one after the other, each
  to its end; the results of the queries are dropped. A fault ends the run.
\<close>

datatype call = CallNotifyStarted | CallIsReady | CallIsLive

fun perform :: "call \<Rightarrow> (unit, HC, 'g) prog" where
  "perform CallNotifyStarted = NotifyStarted"
| "perform CallIsReady = andthen isReady (\<lambda>_. ret ())"
| "perform CallIsLive = andthen isLive (\<lambda>_. ret ())"

fun perform_healthcheck :: "call \<Rightarrow> (unit, HC_healthcheck, globals) prog" where
  "perform_healthcheck CallNotifyStarted = NotifyReadyForConnections"
| "perform_healthcheck CallIsReady = andthen readinessTest (\<lambda>_. ret ())"
| "perform_healthcheck CallIsLive = andthen livenessTest (\<lambda>_. ret ())"

fun run :: "('c \<Rightarrow> (unit, 'h, 'g) prog) \<Rightarrow> 'c list \<Rightarrow> (unit, 'h, 'g) prog" where
  "run p [] = ret ()"
| "run p (c # cs) = andthen (p c) (\<lambda>_. run p cs)"

text \<open>The worlds between the calls of a run, the first one included.\<close>

fun history :: "('c \<Rightarrow> (unit, 'h, 'g) prog) \<Rightarrow> 'c list \<Rightarrow> ('h, 'g) world \<Rightarrow> ('h, 'g) world list" where
  "history p [] w = [w]"
| "history p (c # cs) w =
     w # (case p c w of Inl e \<Rightarrow> [] | Inr (_, w') \<Rightarrow> history p cs w')"

text \<open>The same operation \<open>n\<close> times in a row.\<close>

fun times :: "nat \<Rightarrow> (unit, 'h, 'g) prog \<Rightarrow> (unit, 'h, 'g) prog" where
  "times 0 p = ret ()"
| "times (Suc n) p = andthen p (\<lambda>_. times n p)"

text \<open>The value of \<^verbatim>\<open>started\<close> in a world; no tracker, no flag.\<close>

definition started_in :: "(HC, 'g) world \<Rightarrow> bool" where
  "started_in w = (case tracker w of None \<Rightarrow> False | Some h \<Rightarrow> HC.started h)"

definition started_in_healthcheck :: "(HC_healthcheck, 'g) world \<Rightarrow> bool" where
  "started_in_healthcheck w = (case tracker w of None \<Rightarrow> False | Some h \<Rightarrow> HC_healthcheck.started h)"

text \<open>
  The events a program adds to the trace when it runs in a world, and among them the
  writes to the connection counter.
\<close>

definition events_of :: "('a, 'h, 'g) prog \<Rightarrow> ('h, 'g) world \<Rightarrow> event list" where
  "events_of p w = (case p w of Inl e \<Rightarrow> [] | Inr (_, w') \<Rightarrow> drop (length (trace w)) (trace w'))"

fun is_write :: "event \<Rightarrow> bool" where
  "is_write (AtomicAdd d) = True"
| "is_write (AtomicLoad v) = False"
| "is_write (Errorf f args) = False"
| "is_write (Printf f) = False"

definition writes_of :: "('a, 'h, 'g) prog \<Rightarrow> ('h, 'g) world \<Rightarrow> event list" where
  "writes_of p w = filter is_write (events_of p w)"

text \<open>
  A world between two calls: both pointers are set and the mutex that guards
  \<^verbatim>\<open>started\<close> is free.
\<close>

definition idle :: "(HC, 'g) world \<Rightarrow> bool" where
  "idle w =
     (client w \<noteq> None \<and> (case tracker w of None \<Rightarrow> False | Some h \<Rightarrow> startedL h = Unlocked))"

definition idle_healthcheck :: "(HC_healthcheck, globals) world \<Rightarrow> bool" where
  "idle_healthcheck w =
     (client w \<noteq> None \<and> tracker w \<noteq> None \<and> startupMutex (globals w) = Unlocked)"

text \<open>
  How often a list of flags goes from false to true, and from true to false, between
  neighbours.
\<close>

fun rises :: "bool list \<Rightarrow> nat" where
  "rises (a # b # bs) = (if \<not> a \<and> b then 1 else 0) + rises (b # bs)"
| "rises bs = 0"

fun falls :: "bool list \<Rightarrow> nat" where
  "falls (a # b # bs) = (if a \<and> \<not> b then 1 else 0) + falls (b # bs)"
| "falls bs = 0"

text \<open>A world with both objects in place and no event yet.\<close>

definition world_with :: "Client \<Rightarrow> 'h \<Rightarrow> 'g \<Rightarrow> ('h, 'g) world" where
  "world_with c h g = \<lparr>client = Some c, tracker = Some h, globals = g, trace = []\<rparr>"

section \<open>Properties\<close>

subsection \<open>What each operation does in a world between two calls\<close>

lemmas prog_defs = ret_def halt_def andthen_def and_also_def deferring_def emit_def
  deref_c_def store_c_def deref_hc_def store_hc_def hc_is_nil_def get_MaxConnections_def
  atomic_LoadUint64_def atomic_AddUint64_def logging_Errorf_def fmt_Printf_def
  Lock_def Unlock_def

lemma NotifyStarted_idle:
  assumes "tracker w = Some h" and "startedL h = Unlocked"
  shows "NotifyStarted w = Inr ((), w\<lparr>tracker := Some (h\<lparr>HC.started := True\<rparr>)\<rparr>)"
  using assms
  by (simp add: NotifyStarted_def startedL_Lock_def startedL_Unlock_def prog_defs)

lemma NotifyStarted_nil:
  "tracker w = None \<Longrightarrow> NotifyStarted w = Inl NilPointerDereference"
  by (simp add: NotifyStarted_def startedL_Lock_def prog_defs)

lemma NotifyStarted_returns:
  assumes "NotifyStarted w = Inr ((), w')"
  shows "\<exists>h. tracker w = Some h \<and> startedL h = Unlocked"
  using assms
  by (auto simp: NotifyStarted_def startedL_Lock_def startedL_Unlock_def prog_defs
      split: option.splits mutex.splits sum.splits)

lemma NotifyStarted_again:
  assumes "NotifyStarted w = Inr ((), w')"
  shows "NotifyStarted w' = Inr ((), w')"
proof -
  from NotifyStarted_returns [OF assms] obtain h where h: "tracker w = Some h"
    and l: "startedL h = Unlocked" by blast
  from assms have w': "w' = w\<lparr>tracker := Some (h\<lparr>HC.started := True\<rparr>)\<rparr>"
    by (simp add: NotifyStarted_idle [OF h l])
  have "NotifyStarted w' = Inr ((), w'\<lparr>tracker := Some (h\<lparr>HC.started := True\<rparr>\<lparr>HC.started := True\<rparr>)\<rparr>)"
    by (rule NotifyStarted_idle) (simp_all add: w' l)
  then show ?thesis by (simp add: w')
qed

lemma isLive_run: "isLive w = Inr (True, w)"
  by (simp add: isLive_def ret_def)

lemma isReady_idle:
  assumes "client w = Some c" and "tracker w = Some h" and "startedL h = Unlocked"
  shows "isReady w =
           Inr (HC.started h \<and> (MaxConnections c = 0 \<or> ConnectionsCounter c < MaxConnections c),
                w\<lparr>trace := trace w @ events_of isReady w\<rparr>)"
    and "writes_of isReady w = []"
proof -
  have h: "h\<lparr>startedL := Unlocked\<rparr> = h" using assms(3) by simp
  have w: "\<And>t. w\<lparr>tracker := Some h, trace := t\<rparr> = w\<lparr>trace := t\<rparr>" using assms(2) by simp
  have w': "w\<lparr>tracker := Some h\<rparr> = w" using assms(2) by simp
  show "isReady w =
           Inr (HC.started h \<and> (MaxConnections c = 0 \<or> ConnectionsCounter c < MaxConnections c),
                w\<lparr>trace := trace w @ events_of isReady w\<rparr>)"
    using assms
    by (auto simp add: events_of_def isReady_def startedL_Lock_def startedL_Unlock_def prog_defs
        word_greater_zero_iff not_less h w w')
  show "writes_of isReady w = []"
    using assms
    by (simp add: writes_of_def events_of_def isReady_def startedL_Lock_def startedL_Unlock_def prog_defs
        word_greater_zero_iff not_less h w w')
qed

lemma isReady_idle_world:
  assumes "idle w" and "client w = Some c"
  shows "isReady w =
           Inr (started_in w \<and> (MaxConnections c = 0 \<or> ConnectionsCounter c < MaxConnections c),
                w\<lparr>trace := trace w @ events_of isReady w\<rparr>)"
    and "writes_of isReady w = []"
proof -
  from assms(1) obtain h where h: "tracker w = Some h" and l: "startedL h = Unlocked"
    by (auto simp: idle_def split: option.splits)
  show "isReady w =
           Inr (started_in w \<and> (MaxConnections c = 0 \<or> ConnectionsCounter c < MaxConnections c),
                w\<lparr>trace := trace w @ events_of isReady w\<rparr>)"
    using isReady_idle(1) [OF assms(2) h l] h by (simp add: started_in_def)
  show "writes_of isReady w = []"
    by (rule isReady_idle(2) [OF assms(2) h l])
qed

lemma NotifyReadyForConnections_idle:
  assumes "tracker w = Some h" and "startupMutex (globals w) = Unlocked"
  shows "NotifyReadyForConnections w = Inr ((), w\<lparr>tracker := Some (h\<lparr>HC_healthcheck.started := True\<rparr>)\<rparr>)"
proof -
  have g: "(globals w)\<lparr>startupMutex := Unlocked\<rparr> = globals w" using assms(2) by simp
  have w: "\<And>t. w\<lparr>tracker := t, globals := globals w\<rparr> = w\<lparr>tracker := t\<rparr>" by simp
  show ?thesis
  using assms
  by (simp add: NotifyReadyForConnections_def startupMutex_Lock_def startupMutex_Unlock_def prog_defs g w)
qed

lemma NotifyReadyForConnections_nil:
  assumes "tracker w = None"
  shows "NotifyReadyForConnections w = Inr ((), w)"
  using assms by (simp add: NotifyReadyForConnections_def prog_defs)

lemma NotifyReadyForConnections_returns:
  assumes "NotifyReadyForConnections v = Inr ((), v')"
  shows "tracker v = None \<or> startupMutex (globals v) = Unlocked"
  using assms
  by (auto simp: NotifyReadyForConnections_def startupMutex_Lock_def startupMutex_Unlock_def prog_defs
      split: option.splits mutex.splits sum.splits if_splits)

lemma NotifyReadyForConnections_again:
  assumes "NotifyReadyForConnections v = Inr ((), v')"
  shows "NotifyReadyForConnections v' = Inr ((), v')"
proof (cases "tracker v")
  case None
  with assms show ?thesis by (simp add: NotifyReadyForConnections_nil)
next
  case (Some h)
  with NotifyReadyForConnections_returns [OF assms]
  have l: "startupMutex (globals v) = Unlocked" by simp
  from assms have v': "v' = v\<lparr>tracker := Some (h\<lparr>HC_healthcheck.started := True\<rparr>)\<rparr>"
    by (simp add: NotifyReadyForConnections_idle [OF Some l])
  have "NotifyReadyForConnections v' =
      Inr ((), v'\<lparr>tracker := Some (h\<lparr>HC_healthcheck.started := True\<rparr>\<lparr>HC_healthcheck.started := True\<rparr>)\<rparr>)"
    by (rule NotifyReadyForConnections_idle) (simp_all add: v' l)
  then show ?thesis by (simp add: v')
qed

lemma NotifyReadyForConnections_no_nil_panic:
  "NotifyReadyForConnections v \<noteq> Inl NilPointerDereference"
  by (auto simp: NotifyReadyForConnections_def startupMutex_Lock_def startupMutex_Unlock_def prog_defs
      split: option.splits mutex.splits sum.splits if_splits)

lemma livenessTest_run: "livenessTest w = Inr (True, w)"
  by (simp add: livenessTest_def ret_def)

lemma readinessTest_idle:
  assumes "client w = Some c" and "tracker w = Some h" and "startupMutex (globals w) = Unlocked"
  shows "readinessTest w =
           Inr (HC_healthcheck.started h \<and> (MaxConnections c = 0 \<or> ConnectionsCounter c < MaxConnections c),
                w\<lparr>trace := trace w @ events_of readinessTest w\<rparr>)"
    and "writes_of readinessTest w = []"
proof -
  have g: "(globals w)\<lparr>startupMutex := Unlocked\<rparr> = globals w" using assms(3) by simp
  have w: "\<And>t. w\<lparr>globals := globals w, trace := t\<rparr> = w\<lparr>trace := t\<rparr>" by simp
  have w': "w\<lparr>globals := globals w\<rparr> = w" by simp
  show "readinessTest w =
           Inr (HC_healthcheck.started h \<and> (MaxConnections c = 0 \<or> ConnectionsCounter c < MaxConnections c),
                w\<lparr>trace := trace w @ events_of readinessTest w\<rparr>)"
    using assms
    by (auto simp add: events_of_def readinessTest_def startupMutex_Lock_def startupMutex_Unlock_def prog_defs
        word_greater_zero_iff not_less g w w')
  show "writes_of readinessTest w = []"
    using assms
    by (simp add: writes_of_def events_of_def readinessTest_def startupMutex_Lock_def startupMutex_Unlock_def prog_defs
        word_greater_zero_iff not_less g w w')
qed

lemma readinessTest_idle_world:
  assumes "idle_healthcheck v" and "client v = Some d"
  shows "readinessTest v =
           Inr (started_in_healthcheck v \<and>
                  (MaxConnections d = 0 \<or> ConnectionsCounter d < MaxConnections d),
                v\<lparr>trace := trace v @ events_of readinessTest v\<rparr>)"
    and "writes_of readinessTest v = []"
proof -
  from assms(1) obtain h where h: "tracker v = Some h" and l: "startupMutex (globals v) = Unlocked"
    by (auto simp: idle_healthcheck_def)
  show "readinessTest v =
           Inr (started_in_healthcheck v \<and>
                  (MaxConnections d = 0 \<or> ConnectionsCounter d < MaxConnections d),
                v\<lparr>trace := trace v @ events_of readinessTest v\<rparr>)"
    using readinessTest_idle(1) [OF assms(2) h l] h by (simp add: started_in_healthcheck_def)
  show "writes_of readinessTest v = []"
    by (rule readinessTest_idle(2) [OF assms(2) h l])
qed

text \<open>
  The revision of part_001 compares the incremented count. On 64-bit words the successor
  of \<open>n\<close> lies above \<open>m\<close> exactly when \<open>n\<close> is not the last word and \<open>m \<le> n\<close>.
\<close>

lemma word64_less_succ:
  fixes n m :: "64 word"
  shows "(m < n + 1) = (n \<noteq> - 1 \<and> m \<le> n)"
proof -
  have "(m < n + 1) = (\<not> n + 1 \<le> m)"
    by (simp add: not_le)
  also have "\<dots> = (\<not> (n = - 1 \<or> n < m))"
    by (simp only: inc_less_eq_iff)
  also have "\<dots> = (n \<noteq> - 1 \<and> m \<le> n)"
    by (auto simp: not_less)
  finally show ?thesis .
qed

lemma readinessTest_part_001_run:
  assumes "client u = Some c" and "tracker u = Some k"
  shows "readinessTest_part_001 u =
           Inr (HealthCheck.started k \<and>
                  \<not> (MaxConnections c > 0 \<and> ConnectionsCounter c + 1 > MaxConnections c),
                u\<lparr>trace := trace u @ events_of readinessTest_part_001 u\<rparr>)"
    and "writes_of readinessTest_part_001 u =
           (if HealthCheck.started k then [AtomicAdd 1, AtomicAdd (NOT 0)] else [])"
proof -
  have c: "\<And>t. u\<lparr>client := Some c, trace := t\<rparr> = u\<lparr>trace := t\<rparr>" using assms(1) by simp
  show "readinessTest_part_001 u =
           Inr (HealthCheck.started k \<and>
                  \<not> (MaxConnections c > 0 \<and> ConnectionsCounter c + 1 > MaxConnections c),
                u\<lparr>trace := trace u @ events_of readinessTest_part_001 u\<rparr>)"
    using assms
    by (auto simp add: events_of_def readinessTest_part_001_def prog_defs c)
  show "writes_of readinessTest_part_001 u =
           (if HealthCheck.started k then [AtomicAdd 1, AtomicAdd (NOT 0)] else [])"
    using assms
    by (auto simp add: writes_of_def events_of_def readinessTest_part_001_def prog_defs c)
qed

lemma readinessTest_part_001_agrees:
  assumes "client u = Some e" and "tracker u = Some k" and "HealthCheck.started k"
    and "ConnectionsCounter e \<noteq> - 1"
  shows "readinessTest_part_001 u =
           Inr (MaxConnections e = 0 \<or> ConnectionsCounter e < MaxConnections e,
                u\<lparr>trace := trace u @ events_of readinessTest_part_001 u\<rparr>)"
  using readinessTest_part_001_run(1) [OF assms(1,2)] assms(3,4)
  by (auto simp add: word64_less_succ word_greater_zero_iff not_le)

lemma readinessTest_part_001_wrapped:
  assumes "client u = Some e" and "tracker u = Some k" and "HealthCheck.started k"
    and "ConnectionsCounter e = - 1"
  shows "readinessTest_part_001 u =
           Inr (True, u\<lparr>trace := trace u @ events_of readinessTest_part_001 u\<rparr>)"
  using readinessTest_part_001_run(1) [OF assms(1,2)] assms(3,4)
  by simp

lemma livenessTest_part_001_run:
  "livenessTest_part_001 u = Inr (True, u\<lparr>trace := trace u @ [Printf ''running liveness test\<newline>'']\<rparr>)"
  by (simp add: livenessTest_part_001_def prog_defs)

lemma liveness_writes:
  "writes_of isLive w = []" "writes_of livenessTest v = []" "writes_of livenessTest_part_001 u = []"
  by (simp_all add: writes_of_def events_of_def isLive_run livenessTest_run livenessTest_part_001_run)

subsection \<open>The boundary of the connection limit\<close>

lemma isReady_at_limit:
  assumes "idle w" and "client w = Some c" and "started_in w"
    and "MaxConnections c > 0" and "ConnectionsCounter c = MaxConnections c"
  shows "\<exists>w'. isReady w = Inr (False, w')"
  using isReady_idle_world(1) [OF assms(1,2)] assms(3,4,5)
  by (simp add: word_greater_zero_iff)

lemma readinessTest_at_limit:
  assumes "idle_healthcheck v" and "client v = Some d" and "started_in_healthcheck v"
    and "MaxConnections d > 0" and "ConnectionsCounter d = MaxConnections d"
  shows "\<exists>v'. readinessTest v = Inr (False, v')"
  using readinessTest_idle_world(1) [OF assms(1,2)] assms(3,4,5)
  by (simp add: word_greater_zero_iff)

lemma readinessTest_part_001_at_limit:
  assumes "client u = Some e" and "tracker u = Some k" and "HealthCheck.started k"
    and "MaxConnections e > 0" and "ConnectionsCounter e = MaxConnections e"
    and "MaxConnections e \<noteq> - 1"
  shows "\<exists>u'. readinessTest_part_001 u = Inr (False, u')"
  using readinessTest_part_001_run(1) [OF assms(1,2)] assms(3,4,5,6)
  by (simp add: word64_less_succ)

lemma readiness_examples:
  "(\<exists>w'. isReady (world_with \<lparr>MaxConnections = 10, ConnectionsCounter = 9\<rparr>
             \<lparr>startedL = Unlocked, HC.started = True, port = p\<rparr> ()) = Inr (True, w'))"
  "(\<exists>w'. isReady (world_with \<lparr>MaxConnections = 10, ConnectionsCounter = 10\<rparr>
             \<lparr>startedL = Unlocked, HC.started = True, port = p\<rparr> ()) = Inr (False, w'))"
  "(\<exists>w'. isReady (world_with \<lparr>MaxConnections = 10, ConnectionsCounter = 11\<rparr>
             \<lparr>startedL = Unlocked, HC.started = True, port = p\<rparr> ()) = Inr (False, w'))"
  "(\<exists>u'. readinessTest_part_001 (world_with \<lparr>MaxConnections = 10, ConnectionsCounter = 9\<rparr>
             \<lparr>live = l, ready = r, started = True\<rparr> ()) = Inr (True, u'))"
  "(\<exists>u'. readinessTest_part_001 (world_with \<lparr>MaxConnections = 10, ConnectionsCounter = 10\<rparr>
             \<lparr>live = l, ready = r, started = True\<rparr> ()) = Inr (False, u'))"
  "(\<exists>u'. readinessTest_part_001 (world_with \<lparr>MaxConnections = 10, ConnectionsCounter = 11\<rparr>
             \<lparr>live = l, ready = r, started = True\<rparr> ()) = Inr (False, u'))"
proof -
  have a: "\<And>c. \<exists>w'. isReady (world_with c \<lparr>startedL = Unlocked, HC.started = True, port = p\<rparr> ()) =
      Inr (MaxConnections c = 0 \<or> ConnectionsCounter c < MaxConnections c, w')"
  proof -
    fix c
    let ?w = "world_with c \<lparr>startedL = Unlocked, HC.started = True, port = p\<rparr> ()"
    have "idle ?w" and "client ?w = Some c" and "started_in ?w"
      by (simp_all add: world_with_def idle_def started_in_def)
    from isReady_idle_world(1) [OF this(1,2)] this(3)
    show "\<exists>w'. isReady ?w = Inr (MaxConnections c = 0 \<or> ConnectionsCounter c < MaxConnections c, w')"
      by simp
  qed
  have b: "\<And>c. \<exists>u'. readinessTest_part_001 (world_with c \<lparr>live = l, ready = r, started = True\<rparr> ()) =
      Inr (\<not> (MaxConnections c > 0 \<and> ConnectionsCounter c + 1 > MaxConnections c), u')"
  proof -
    fix c
    let ?u = "world_with c \<lparr>live = l, ready = r, started = True\<rparr> ()"
    have "client ?u = Some c" and "tracker ?u = Some \<lparr>live = l, ready = r, started = True\<rparr>"
      by (simp_all add: world_with_def)
    from readinessTest_part_001_run(1) [OF this]
    show "\<exists>u'. readinessTest_part_001 ?u =
      Inr (\<not> (MaxConnections c > 0 \<and> ConnectionsCounter c + 1 > MaxConnections c), u')"
      by simp
  qed
  show "(\<exists>w'. isReady (world_with \<lparr>MaxConnections = 10, ConnectionsCounter = 9\<rparr>
             \<lparr>startedL = Unlocked, HC.started = True, port = p\<rparr> ()) = Inr (True, w'))"
    using a [of "\<lparr>MaxConnections = 10, ConnectionsCounter = 9\<rparr>"] by simp
  show "(\<exists>w'. isReady (world_with \<lparr>MaxConnections = 10, ConnectionsCounter = 10\<rparr>
             \<lparr>startedL = Unlocked, HC.started = True, port = p\<rparr> ()) = Inr (False, w'))"
    using a [of "\<lparr>MaxConnections = 10, ConnectionsCounter = 10\<rparr>"] by simp
  show "(\<exists>w'. isReady (world_with \<lparr>MaxConnections = 10, ConnectionsCounter = 11\<rparr>
             \<lparr>startedL = Unlocked, HC.started = True, port = p\<rparr> ()) = Inr (False, w'))"
    using a [of "\<lparr>MaxConnections = 10, ConnectionsCounter = 11\<rparr>"] by simp
  show "(\<exists>u'. readinessTest_part_001 (world_with \<lparr>MaxConnections = 10, ConnectionsCounter = 9\<rparr>
             \<lparr>live = l, ready = r, started = True\<rparr> ()) = Inr (True, u'))"
    using b [of "\<lparr>MaxConnections = 10, ConnectionsCounter = 9\<rparr>"] by simp
  show "(\<exists>u'. readinessTest_part_001 (world_with \<lparr>MaxConnections = 10, ConnectionsCounter = 10\<rparr>
             \<lparr>live = l, ready = r, started = True\<rparr> ()) = Inr (False, u'))"
    using b [of "\<lparr>MaxConnections = 10, ConnectionsCounter = 10\<rparr>"] by simp
  show "(\<exists>u'. readinessTest_part_001 (world_with \<lparr>MaxConnections = 10, ConnectionsCounter = 11\<rparr>
             \<lparr>live = l, ready = r, started = True\<rparr> ()) = Inr (False, u'))"
    using b [of "\<lparr>MaxConnections = 10, ConnectionsCounter = 11\<rparr>"] by simp
qed

subsection \<open>Sequences of calls keep the world idle\<close>

lemma perform_idle:
  assumes "idle w"
  shows "\<exists>w'. perform c w = Inr ((), w') \<and> idle w' \<and> client w' = client w \<and>
              started_in w' = (started_in w \<or> c = CallNotifyStarted)"
proof -
  from assms obtain cl h where cl: "client w = Some cl" and h: "tracker w = Some h"
    and l: "startedL h = Unlocked"
    by (auto simp: idle_def split: option.splits)
  show ?thesis
  proof (cases c)
    case CallNotifyStarted
    then show ?thesis
      using cl h l by (simp add: NotifyStarted_idle [OF h l] idle_def started_in_def)
  next
    case CallIsReady
    then show ?thesis
      using cl h l by (simp add: andthen_def ret_def isReady_idle(1) [OF cl h l] idle_def started_in_def)
  next
    case CallIsLive
    then show ?thesis
      using assms by (simp add: andthen_def ret_def isLive_run)
  qed
qed

lemma run_idle:
  assumes "idle w"
  shows "\<exists>w'. run perform cs w = Inr ((), w') \<and> idle w' \<and> client w' = client w \<and>
              started_in w' = (started_in w \<or> CallNotifyStarted \<in> set cs)"
  using assms
proof (induction cs arbitrary: w)
  case Nil
  then show ?case by (simp add: ret_def)
next
  case (Cons c cs)
  from perform_idle [OF Cons.prems, of c] obtain w1 where
    p: "perform c w = Inr ((), w1)" and i: "idle w1" and cl: "client w1 = client w"
    and s: "started_in w1 = (started_in w \<or> c = CallNotifyStarted)"
    by blast
  from Cons.IH [OF i] obtain w' where
    r: "run perform cs w1 = Inr ((), w')" and i': "idle w'" and cl': "client w' = client w1"
    and s': "started_in w' = (started_in w1 \<or> CallNotifyStarted \<in> set cs)"
    by blast
  show ?case
    using p r i' cl cl' s s' by (auto simp: andthen_def)
qed

lemma history_idle:
  assumes "idle w"
  shows "length (history perform cs w) = Suc (length cs) \<and>
         sorted_wrt (\<lambda>a b. started_in a \<longrightarrow> started_in b) (history perform cs w) \<and>
         (\<forall>x \<in> set (history perform cs w). started_in w \<longrightarrow> started_in x)"
  using assms
proof (induction cs arbitrary: w)
  case Nil
  then show ?case by simp
next
  case (Cons c cs)
  from perform_idle [OF Cons.prems, of c] obtain w1 where
    p: "perform c w = Inr ((), w1)" and i: "idle w1"
    and s: "started_in w1 = (started_in w \<or> c = CallNotifyStarted)"
    by blast
  from Cons.IH [OF i] s p show ?case
    by simp
qed

lemma history_nth_mono:
  assumes "idle w" and "i \<le> j" and "j \<le> length cs"
    and "started_in (history perform cs w ! i)"
  shows "started_in (history perform cs w ! j)"
proof (cases "i = j")
  case True
  with assms(4) show ?thesis by simp
next
  case False
  with assms(2) have "i < j" by simp
  moreover have "j < length (history perform cs w)"
    using history_idle [OF assms(1), of cs] assms(3) by simp
  moreover have "sorted_wrt (\<lambda>a b. started_in a \<longrightarrow> started_in b) (history perform cs w)"
    using history_idle [OF assms(1), of cs] by blast
  ultimately show ?thesis
    using assms(4) by (simp add: sorted_wrt_iff_nth_less)
qed

lemma perform_healthcheck_idle:
  assumes "idle_healthcheck v"
  shows "\<exists>v'. perform_healthcheck c v = Inr ((), v') \<and> idle_healthcheck v' \<and> client v' = client v \<and>
              started_in_healthcheck v' = (started_in_healthcheck v \<or> c = CallNotifyStarted)"
proof -
  from assms obtain cl h where cl: "client v = Some cl" and h: "tracker v = Some h"
    and l: "startupMutex (globals v) = Unlocked"
    by (auto simp: idle_healthcheck_def)
  show ?thesis
  proof (cases c)
    case CallNotifyStarted
    then show ?thesis
      using cl h l
      by (simp add: NotifyReadyForConnections_idle [OF h l] idle_healthcheck_def started_in_healthcheck_def)
  next
    case CallIsReady
    then show ?thesis
      using cl h l
      by (simp add: andthen_def ret_def readinessTest_idle(1) [OF cl h l] idle_healthcheck_def
          started_in_healthcheck_def)
  next
    case CallIsLive
    then show ?thesis
      using assms by (simp add: andthen_def ret_def livenessTest_run)
  qed
qed

lemma run_healthcheck_idle:
  assumes "idle_healthcheck v"
  shows "\<exists>v'. run perform_healthcheck cs v = Inr ((), v') \<and> idle_healthcheck v' \<and> client v' = client v \<and>
              started_in_healthcheck v' = (started_in_healthcheck v \<or> CallNotifyStarted \<in> set cs)"
  using assms
proof (induction cs arbitrary: v)
  case Nil
  then show ?case by (simp add: ret_def)
next
  case (Cons c cs)
  from perform_healthcheck_idle [OF Cons.prems, of c] obtain v1 where
    p: "perform_healthcheck c v = Inr ((), v1)" and i: "idle_healthcheck v1" and cl: "client v1 = client v"
    and s: "started_in_healthcheck v1 = (started_in_healthcheck v \<or> c = CallNotifyStarted)"
    by blast
  from Cons.IH [OF i] obtain v' where
    r: "run perform_healthcheck cs v1 = Inr ((), v')" and i': "idle_healthcheck v'" and cl': "client v' = client v1"
    and s': "started_in_healthcheck v' = (started_in_healthcheck v1 \<or> CallNotifyStarted \<in> set cs)"
    by blast
  show ?case
    using p r i' cl cl' s s' by (auto simp: andthen_def)
qed

lemma history_healthcheck_idle:
  assumes "idle_healthcheck v"
  shows "length (history perform_healthcheck cs v) = Suc (length cs) \<and>
         sorted_wrt (\<lambda>a b. started_in_healthcheck a \<longrightarrow> started_in_healthcheck b)
           (history perform_healthcheck cs v) \<and>
         (\<forall>x \<in> set (history perform_healthcheck cs v).
            started_in_healthcheck v \<longrightarrow> started_in_healthcheck x)"
  using assms
proof (induction cs arbitrary: v)
  case Nil
  then show ?case by simp
next
  case (Cons c cs)
  from perform_healthcheck_idle [OF Cons.prems, of c] obtain v1 where
    p: "perform_healthcheck c v = Inr ((), v1)" and i: "idle_healthcheck v1"
    and s: "started_in_healthcheck v1 = (started_in_healthcheck v \<or> c = CallNotifyStarted)"
    by blast
  from Cons.IH [OF i] s p show ?case
    by simp
qed

lemma history_healthcheck_nth_mono:
  assumes "idle_healthcheck v" and "i \<le> j" and "j \<le> length cs"
    and "started_in_healthcheck (history perform_healthcheck cs v ! i)"
  shows "started_in_healthcheck (history perform_healthcheck cs v ! j)"
proof (cases "i = j")
  case True
  with assms(4) show ?thesis by simp
next
  case False
  with assms(2) have "i < j" by simp
  moreover have "j < length (history perform_healthcheck cs v)"
    using history_healthcheck_idle [OF assms(1), of cs] assms(3) by simp
  moreover have "sorted_wrt (\<lambda>a b. started_in_healthcheck a \<longrightarrow> started_in_healthcheck b)
      (history perform_healthcheck cs v)"
    using history_healthcheck_idle [OF assms(1), of cs] by blast
  ultimately show ?thesis
    using assms(4) by (simp add: sorted_wrt_iff_nth_less)
qed

lemma rises_all_True:
  assumes "\<forall>b \<in> set bs. b"
  shows "rises bs = 0"
  using assms by (induction bs rule: rises.induct) auto

lemma monotone_flags:
  assumes "sorted_wrt (\<longrightarrow>) bs"
  shows "falls bs = 0 \<and> rises bs \<le> 1"
  using assms
proof (induction bs rule: rises.induct)
  case (1 a b bs)
  show ?case
  proof (cases a)
    case True
    with "1.prems" have "\<forall>x \<in> set (a # b # bs). x" by auto
    then have "rises (a # b # bs) = 0" by (rule rises_all_True)
    moreover have "falls (a # b # bs) = 0"
      using "1.prems" "1.IH" True by auto
    ultimately show ?thesis by simp
  next
    case False
    note a = False
    show ?thesis
    proof (cases b)
      case True
      with "1.prems" have "\<forall>x \<in> set (b # bs). x" by auto
      then have "rises (b # bs) = 0" by (rule rises_all_True)
      then show ?thesis using "1.prems" "1.IH" a True by auto
    next
      case False
      then show ?thesis using "1.prems" "1.IH" a by auto
    qed
  qed
qed simp_all

lemma history_flags:
  assumes "idle w"
  shows "falls (map started_in (history perform cs w)) = 0 \<and>
         rises (map started_in (history perform cs w)) \<le> 1"
proof -
  have "sorted_wrt (\<lambda>a b. started_in a \<longrightarrow> started_in b) (history perform cs w)"
    using history_idle [OF assms, of cs] by blast
  then have "sorted_wrt (\<longrightarrow>) (map started_in (history perform cs w))"
    by (simp add: sorted_wrt_map)
  then show ?thesis by (rule monotone_flags)
qed

lemma history_healthcheck_flags:
  assumes "idle_healthcheck v"
  shows "falls (map started_in_healthcheck (history perform_healthcheck cs v)) = 0 \<and>
         rises (map started_in_healthcheck (history perform_healthcheck cs v)) \<le> 1"
proof -
  have "sorted_wrt (\<lambda>a b. started_in_healthcheck a \<longrightarrow> started_in_healthcheck b)
      (history perform_healthcheck cs v)"
    using history_healthcheck_idle [OF assms, of cs] by blast
  then have "sorted_wrt (\<longrightarrow>) (map started_in_healthcheck (history perform_healthcheck cs v))"
    by (simp add: sorted_wrt_map)
  then show ?thesis by (rule monotone_flags)
qed

subsection \<open>Repeating an operation\<close>

lemma andthen_ret: "andthen p ret = p"
  by (rule ext) (simp add: andthen_def ret_def split: sum.splits)

lemma times_idempotent:
  fixes p :: "(unit, 'h, 'g) prog"
  assumes idem: "\<And>w w'. p w = Inr ((), w') \<Longrightarrow> p w' = Inr ((), w')"
  shows "times (Suc n) p w = p w"
proof (induction n arbitrary: w)
  case 0
  show ?case by (simp add: andthen_ret)
next
  case (Suc n)
  show ?case
  proof (cases "p w")
    case (Inl e)
    then show ?thesis by (simp add: andthen_def)
  next
    case (Inr r)
    then obtain w' where r: "p w = Inr ((), w')" by (cases r) simp
    have "times (Suc (Suc n)) p w = times (Suc n) p w'"
      using r by (simp add: andthen_def)
    also have "\<dots> = p w'" by (rule Suc.IH)
    also have "\<dots> = Inr ((), w')" by (rule idem [OF r])
    finally show ?thesis using r by simp
  qed
qed

subsection \<open>Construction, then calls, then the readiness query\<close>

lemma NewHealthCheck_None:
  "NewHealthCheck p None w =
     Inr (None, w\<lparr>tracker := Some \<lparr>startedL = Unlocked, HC.started = False, port = p\<rparr>\<rparr>)"
  by (simp add: NewHealthCheck_def prog_defs)

lemma NewHealthCheck_Some:
  "NewHealthCheck p (Some err) w = Inr (Some err, w\<lparr>tracker := None\<rparr>)"
  by (simp add: NewHealthCheck_def)

lemma NewHealthCheck_healthcheck_run:
  "NewHealthCheck_healthcheck v =
     Inr ((), v\<lparr>tracker := Some \<lparr>HC_healthcheck.live = True, HC_healthcheck.ready = False,
                                  HC_healthcheck.started = False\<rparr>\<rparr>)"
  by (simp add: NewHealthCheck_healthcheck_def prog_defs)

lemma isReady_after_calls:
  assumes "client w = Some c"
  shows "\<exists>w'. andthen (NewHealthCheck p None) (\<lambda>_. andthen (run perform cs) (\<lambda>_. isReady)) w =
           Inr (CallNotifyStarted \<in> set cs \<and>
                  (MaxConnections c = 0 \<or> ConnectionsCounter c < MaxConnections c), w')"
proof -
  let ?w0 = "w\<lparr>tracker := Some \<lparr>startedL = Unlocked, HC.started = False, port = p\<rparr>\<rparr>"
  have i0: "idle ?w0" using assms by (simp add: idle_def)
  have s0: "\<not> started_in ?w0" by (simp add: started_in_def)
  from run_idle [OF i0, of cs] obtain w1 where
    r: "run perform cs ?w0 = Inr ((), w1)" and i1: "idle w1" and c1: "client w1 = client ?w0"
    and s1: "started_in w1 = (started_in ?w0 \<or> CallNotifyStarted \<in> set cs)"
    by blast
  from i1 obtain h where h: "tracker w1 = Some h" and l: "startedL h = Unlocked"
    by (auto simp: idle_def split: option.splits)
  have c1': "client w1 = Some c" using c1 assms by simp
  have "HC.started h = (CallNotifyStarted \<in> set cs)"
    using s1 s0 h by (simp add: started_in_def)
  then show ?thesis
    using isReady_idle(1) [OF c1' h l] r
    by (simp add: andthen_def NewHealthCheck_None)
qed

lemma readinessTest_after_calls:
  assumes "client v = Some d" and "startupMutex (globals v) = Unlocked"
  shows "\<exists>v'. andthen NewHealthCheck_healthcheck
                 (\<lambda>_. andthen (run perform_healthcheck cs) (\<lambda>_. readinessTest)) v =
           Inr (CallNotifyStarted \<in> set cs \<and>
                  (MaxConnections d = 0 \<or> ConnectionsCounter d < MaxConnections d), v')"
proof -
  let ?v0 = "v\<lparr>tracker := Some \<lparr>HC_healthcheck.live = True, HC_healthcheck.ready = False,
                                  HC_healthcheck.started = False\<rparr>\<rparr>"
  have i0: "idle_healthcheck ?v0" using assms by (simp add: idle_healthcheck_def)
  have s0: "\<not> started_in_healthcheck ?v0" by (simp add: started_in_healthcheck_def)
  from run_healthcheck_idle [OF i0, of cs] obtain v1 where
    r: "run perform_healthcheck cs ?v0 = Inr ((), v1)" and i1: "idle_healthcheck v1"
    and c1: "client v1 = client ?v0"
    and s1: "started_in_healthcheck v1 = (started_in_healthcheck ?v0 \<or> CallNotifyStarted \<in> set cs)"
    by blast
  from i1 obtain h where h: "tracker v1 = Some h" and l: "startupMutex (globals v1) = Unlocked"
    by (auto simp: idle_healthcheck_def)
  have c1': "client v1 = Some d" using c1 assms by simp
  have "HC_healthcheck.started h = (CallNotifyStarted \<in> set cs)"
    using s1 s0 h by (simp add: started_in_healthcheck_def)
  then show ?thesis
    using readinessTest_idle(1) [OF c1' h l] r
    by (simp add: andthen_def NewHealthCheck_healthcheck_run)
qed

subsection \<open>The claims\<close>

text \<open>
  Claim C1. In every world between two calls, \<^verbatim>\<open>isReady\<close> (part_000) and
  \<^verbatim>\<open>readinessTest\<close> (healthcheck.go) return, and what they return is true exactly when
  \<^verbatim>\<open>started\<close> is set and the maximum is zero or the connection count is strictly below
  the maximum. Read from the construction of the tracker on: when a tracker is
  constructed in such a world (replacing the one there) and any sequence of calls has
  run, the readiness query returns true exactly when \<^verbatim>\<open>NotifyStarted\<close> (or
  \<^verbatim>\<open>NotifyReadyForConnections\<close>) is among the calls and the same condition on the
  connection source holds.
\<close>

theorem isReady_iff:
  assumes "idle w" and "client w = Some c"
    and "idle_healthcheck v" and "client v = Some d"
  shows "(\<exists>w'. isReady w =
            Inr (started_in w \<and>
                   (MaxConnections c = 0 \<or> ConnectionsCounter c < MaxConnections c), w')) \<and>
         (\<exists>v'. readinessTest v =
            Inr (started_in_healthcheck v \<and>
                   (MaxConnections d = 0 \<or> ConnectionsCounter d < MaxConnections d), v')) \<and>
         (\<exists>w'. andthen (NewHealthCheck p None) (\<lambda>_. andthen (run perform cs) (\<lambda>_. isReady)) w =
            Inr (CallNotifyStarted \<in> set cs \<and>
                   (MaxConnections c = 0 \<or> ConnectionsCounter c < MaxConnections c), w')) \<and>
         (\<exists>v'. andthen NewHealthCheck_healthcheck
                  (\<lambda>_. andthen (run perform_healthcheck cs) (\<lambda>_. readinessTest)) v =
            Inr (CallNotifyStarted \<in> set cs \<and>
                   (MaxConnections d = 0 \<or> ConnectionsCounter d < MaxConnections d), v'))"
proof -
  have m: "startupMutex (globals v) = Unlocked"
    using assms(3) by (simp add: idle_healthcheck_def)
  show ?thesis
    using isReady_idle_world(1) [OF assms(1,2)] readinessTest_idle_world(1) [OF assms(3,4)]
      isReady_after_calls [OF assms(2), of p cs] readinessTest_after_calls [OF assms(4) m, of cs]
    by blast
qed

theorem isReady_iff_witness:
  "idle (world_with \<lparr>MaxConnections = 10, ConnectionsCounter = 9\<rparr>
           \<lparr>startedL = Unlocked, HC.started = True, port = ''9090''\<rparr> ()) \<and>
   idle_healthcheck (world_with \<lparr>MaxConnections = 10, ConnectionsCounter = 10\<rparr>
           \<lparr>HC_healthcheck.live = True, HC_healthcheck.ready = False, HC_healthcheck.started = True\<rparr>
           \<lparr>readinessMutex = Unlocked, livenessMutex = Unlocked, startupMutex = Unlocked\<rparr>) \<and>
   (\<exists>w'. isReady (world_with \<lparr>MaxConnections = 10, ConnectionsCounter = 9\<rparr>
           \<lparr>startedL = Unlocked, HC.started = True, port = ''9090''\<rparr> ()) = Inr (True, w')) \<and>
   (\<exists>v'. readinessTest (world_with \<lparr>MaxConnections = 10, ConnectionsCounter = 10\<rparr>
           \<lparr>HC_healthcheck.live = True, HC_healthcheck.ready = False, HC_healthcheck.started = True\<rparr>
           \<lparr>readinessMutex = Unlocked, livenessMutex = Unlocked, startupMutex = Unlocked\<rparr>) =
         Inr (False, v')) \<and>
   (\<exists>w'. andthen (NewHealthCheck ''9090'' None)
            (\<lambda>_. andthen (run perform [CallIsReady, CallNotifyStarted]) (\<lambda>_. isReady))
            (world_with \<lparr>MaxConnections = 10, ConnectionsCounter = 9\<rparr>
               \<lparr>startedL = Unlocked, HC.started = True, port = ''9090''\<rparr> ()) = Inr (True, w')) \<and>
   (\<exists>v'. andthen NewHealthCheck_healthcheck
            (\<lambda>_. andthen (run perform_healthcheck [CallIsReady, CallIsLive]) (\<lambda>_. readinessTest))
            (world_with \<lparr>MaxConnections = 10, ConnectionsCounter = 10\<rparr>
               \<lparr>HC_healthcheck.live = True, HC_healthcheck.ready = False, HC_healthcheck.started = True\<rparr>
               \<lparr>readinessMutex = Unlocked, livenessMutex = Unlocked, startupMutex = Unlocked\<rparr>) =
         Inr (False, v'))"
proof -
  let ?w = "world_with \<lparr>MaxConnections = 10, ConnectionsCounter = 9\<rparr>
           \<lparr>startedL = Unlocked, HC.started = True, port = ''9090''\<rparr> ()"
  let ?v = "world_with \<lparr>MaxConnections = 10, ConnectionsCounter = 10\<rparr>
           \<lparr>HC_healthcheck.live = True, HC_healthcheck.ready = False, HC_healthcheck.started = True\<rparr>
           \<lparr>readinessMutex = Unlocked, livenessMutex = Unlocked, startupMutex = Unlocked\<rparr>"
  have iw: "idle ?w" by (simp add: idle_def world_with_def)
  have cw: "client ?w = Some \<lparr>MaxConnections = 10, ConnectionsCounter = 9\<rparr>"
    by (simp add: world_with_def)
  have iv: "idle_healthcheck ?v" by (simp add: idle_healthcheck_def world_with_def)
  have cv: "client ?v = Some \<lparr>MaxConnections = 10, ConnectionsCounter = 10\<rparr>"
    by (simp add: world_with_def)
  have sw: "started_in ?w" by (simp add: started_in_def world_with_def)
  have sv: "started_in_healthcheck ?v" by (simp add: started_in_healthcheck_def world_with_def)
  show ?thesis
    using isReady_iff [OF iw cw iv cv, of "''9090''" "[CallIsReady, CallNotifyStarted]"]
      isReady_iff [OF iw cw iv cv, of "''9090''" "[CallIsReady, CallIsLive]"] iw iv sw sv
    by simp
qed

text \<open>
  Claim C2. A started tracker with a positive maximum and a connection count equal to the
  maximum is not ready. \<^verbatim>\<open>isReady\<close> and the \<^verbatim>\<open>readinessTest\<close> of healthcheck.go
  answer so for every maximum (\<open>isReady_at_limit\<close>, \<open>readinessTest_at_limit\<close>), and all
  revisions answer true, false, false for the counts 9, 10, 11 under the maximum 10
  (\<open>readiness_examples\<close>). The \<^verbatim>\<open>readinessTest\<close> of part_001 answers so while the maximum
  is below \<open>2^64 - 1\<close> (\<open>readinessTest_part_001_at_limit\<close>). At the maximum
  \<open>2^64 - 1\<close> its increment of the count wraps to zero, zero is not above the maximum,
  and it reports ready where \<^verbatim>\<open>isReady\<close> reports not ready:
\<close>

theorem readinessTest_part_001_ready_at_full_limit:
  "(\<exists>u'. readinessTest_part_001
            (world_with \<lparr>MaxConnections = 18446744073709551615, ConnectionsCounter = 18446744073709551615\<rparr>
               \<lparr>live = True, ready = False, started = True\<rparr> ()) = Inr (True, u')) \<and>
   (\<exists>w'. isReady
            (world_with \<lparr>MaxConnections = 18446744073709551615, ConnectionsCounter = 18446744073709551615\<rparr>
               \<lparr>startedL = Unlocked, HC.started = True, port = ''9090''\<rparr> ()) = Inr (False, w'))"
proof -
  let ?c = "\<lparr>MaxConnections = 18446744073709551615, ConnectionsCounter = 18446744073709551615\<rparr>"
  let ?u = "world_with ?c \<lparr>live = True, ready = False, started = True\<rparr> ()"
  let ?w = "world_with ?c \<lparr>startedL = Unlocked, HC.started = True, port = ''9090''\<rparr> ()"
  have "readinessTest_part_001 ?u = Inr (True, ?u\<lparr>trace := trace ?u @ events_of readinessTest_part_001 ?u\<rparr>)"
    by (rule readinessTest_part_001_wrapped [where e = ?c and k = "\<lparr>live = True, ready = False, started = True\<rparr>"])
      (simp_all add: world_with_def)
  moreover have "\<exists>w'. isReady ?w = Inr (False, w')"
    by (rule isReady_at_limit [where c = ?c])
      (simp_all add: world_with_def idle_def started_in_def)
  ultimately show ?thesis by blast
qed

text \<open>
  Claim C3. A readiness or liveness query leaves the connection count and the configured
  maximum as they were. \<^verbatim>\<open>isReady\<close>, the \<^verbatim>\<open>readinessTest\<close> of healthcheck.go and the
  liveness queries get there by reading only. The \<^verbatim>\<open>readinessTest\<close> of part_001 does
  not: on a started tracker it writes the counter twice, an atomic add of 1 and the
  deferred atomic add of \<open>2^64 - 1\<close>, as this run shows.
\<close>

theorem readinessTest_part_001_writes_counter:
  "writes_of readinessTest_part_001
     (world_with \<lparr>MaxConnections = 10, ConnectionsCounter = 0\<rparr>
        \<lparr>live = True, ready = False, started = True\<rparr> ()) \<noteq> [] \<and>
   writes_of readinessTest_part_001
     (world_with \<lparr>MaxConnections = 10, ConnectionsCounter = 0\<rparr>
        \<lparr>live = True, ready = False, started = True\<rparr> ()) =
   [AtomicAdd 1, AtomicAdd 18446744073709551615]"
proof -
  let ?c = "\<lparr>MaxConnections = 10, ConnectionsCounter = 0\<rparr>"
  let ?k = "\<lparr>live = True, ready = False, started = True\<rparr>"
  have "client (world_with ?c ?k ()) = Some ?c" and "tracker (world_with ?c ?k ()) = Some ?k"
    by (simp_all add: world_with_def)
  from readinessTest_part_001_run(2) [OF this] show ?thesis by simp
qed

text \<open>
  Claim C3, as the code has it: after each query the connection source is what it was
  before; the queries of part_000 and healthcheck.go and every liveness query write
  nothing to it; the \<^verbatim>\<open>readinessTest\<close> of part_001 writes nothing before startup and,
  once started, exactly the two additions that cancel.
\<close>

theorem queries_restore_connection_source:
  assumes "idle w" and "idle_healthcheck v" and "client u = Some e" and "tracker u = Some k"
  shows "(\<exists>b w'. isReady w = Inr (b, w') \<and> client w' = client w) \<and>
         writes_of isReady w = [] \<and>
         isLive w = Inr (True, w) \<and>
         writes_of isLive w = [] \<and>
         (\<exists>b v'. readinessTest v = Inr (b, v') \<and> client v' = client v) \<and>
         writes_of readinessTest v = [] \<and>
         livenessTest v = Inr (True, v) \<and>
         writes_of livenessTest v = [] \<and>
         (\<exists>b u'. readinessTest_part_001 u = Inr (b, u') \<and> client u' = client u) \<and>
         writes_of readinessTest_part_001 u =
           (if HealthCheck.started k then [AtomicAdd 1, AtomicAdd (NOT 0)] else []) \<and>
         (\<exists>u'. livenessTest_part_001 u = Inr (True, u') \<and> client u' = client u) \<and>
         writes_of livenessTest_part_001 u = []"
proof -
  from assms(1) obtain c where c: "client w = Some c"
    by (auto simp: idle_def)
  from assms(2) obtain d where d: "client v = Some d"
    by (auto simp: idle_healthcheck_def)
  have 1: "\<exists>b w'. isReady w = Inr (b, w') \<and> client w' = client w"
    using isReady_idle_world(1) [OF assms(1) c] by simp
  have 2: "\<exists>b v'. readinessTest v = Inr (b, v') \<and> client v' = client v"
    using readinessTest_idle_world(1) [OF assms(2) d] by simp
  have 3: "\<exists>b u'. readinessTest_part_001 u = Inr (b, u') \<and> client u' = client u"
    using readinessTest_part_001_run(1) [OF assms(3,4)] by simp
  have 4: "\<exists>u'. livenessTest_part_001 u = Inr (True, u') \<and> client u' = client u"
    by (simp add: livenessTest_part_001_run)
  show ?thesis
    using 1 2 3 4 isReady_idle_world(2) [OF assms(1) c] readinessTest_idle_world(2) [OF assms(2) d]
      readinessTest_part_001_run(2) [OF assms(3,4)] liveness_writes(1) [of w] liveness_writes(2) [of v] liveness_writes(3) [of u]
      isLive_run [of w] livenessTest_run [of v]
    by simp
qed

theorem queries_restore_connection_source_witness:
  "idle (world_with \<lparr>MaxConnections = 10, ConnectionsCounter = 10\<rparr>
           \<lparr>startedL = Unlocked, HC.started = True, port = ''9090''\<rparr> ()) \<and>
   idle_healthcheck (world_with \<lparr>MaxConnections = 10, ConnectionsCounter = 3\<rparr>
           \<lparr>HC_healthcheck.live = True, HC_healthcheck.ready = False, HC_healthcheck.started = True\<rparr>
           \<lparr>readinessMutex = Unlocked, livenessMutex = Unlocked, startupMutex = Unlocked\<rparr>) \<and>
   (\<exists>b w'. isReady (world_with \<lparr>MaxConnections = 10, ConnectionsCounter = 10\<rparr>
           \<lparr>startedL = Unlocked, HC.started = True, port = ''9090''\<rparr> ()) = Inr (b, w') \<and>
      client w' = Some \<lparr>MaxConnections = 10, ConnectionsCounter = 10\<rparr>) \<and>
   (\<exists>b v'. readinessTest (world_with \<lparr>MaxConnections = 10, ConnectionsCounter = 3\<rparr>
           \<lparr>HC_healthcheck.live = True, HC_healthcheck.ready = False, HC_healthcheck.started = True\<rparr>
           \<lparr>readinessMutex = Unlocked, livenessMutex = Unlocked, startupMutex = Unlocked\<rparr>) = Inr (b, v') \<and>
      client v' = Some \<lparr>MaxConnections = 10, ConnectionsCounter = 3\<rparr>) \<and>
   (\<exists>b u'. readinessTest_part_001 (world_with \<lparr>MaxConnections = 10, ConnectionsCounter = 9\<rparr>
           \<lparr>live = True, ready = False, started = True\<rparr> ()) = Inr (b, u') \<and>
      client u' = Some \<lparr>MaxConnections = 10, ConnectionsCounter = 9\<rparr>) \<and>
   writes_of readinessTest_part_001 (world_with \<lparr>MaxConnections = 10, ConnectionsCounter = 9\<rparr>
           \<lparr>live = True, ready = False, started = True\<rparr> ()) =
     [AtomicAdd 1, AtomicAdd 18446744073709551615]"
proof -
  let ?w = "world_with \<lparr>MaxConnections = 10, ConnectionsCounter = 10\<rparr>
           \<lparr>startedL = Unlocked, HC.started = True, port = ''9090''\<rparr> ()"
  let ?v = "world_with \<lparr>MaxConnections = 10, ConnectionsCounter = 3\<rparr>
           \<lparr>HC_healthcheck.live = True, HC_healthcheck.ready = False, HC_healthcheck.started = True\<rparr>
           \<lparr>readinessMutex = Unlocked, livenessMutex = Unlocked, startupMutex = Unlocked\<rparr>"
  let ?e = "\<lparr>MaxConnections = 10, ConnectionsCounter = 9\<rparr>"
  let ?k = "\<lparr>live = True, ready = False, started = True\<rparr>"
  let ?u = "world_with ?e ?k ()"
  have iw: "idle ?w" by (simp add: idle_def world_with_def)
  have iv: "idle_healthcheck ?v" by (simp add: idle_healthcheck_def world_with_def)
  have cu: "client ?u = Some ?e" by (simp add: world_with_def)
  have tu: "tracker ?u = Some ?k" by (simp add: world_with_def)
  have cw: "client ?w = Some \<lparr>MaxConnections = 10, ConnectionsCounter = 10\<rparr>"
    by (simp add: world_with_def)
  have cv: "client ?v = Some \<lparr>MaxConnections = 10, ConnectionsCounter = 3\<rparr>"
    by (simp add: world_with_def)
  show ?thesis
    using queries_restore_connection_source [OF iw iv cu tu] iw iv cu cw cv
    by simp
qed

text \<open>
  Claim C4. Along any sequence of \<^verbatim>\<open>NotifyStarted\<close>, \<^verbatim>\<open>isReady\<close> and \<^verbatim>\<open>isLive\<close> calls
  (and of their counterparts in healthcheck.go) that starts between two calls, every call
  returns, \<^verbatim>\<open>started\<close> never goes from true to false, goes from false to true at most
  once, and once true at some point of the run it is true at every later point.
\<close>

theorem started_never_reverts:
  assumes "idle w" and "idle_healthcheck v"
  shows "length (history perform cs w) = Suc (length cs) \<and>
         falls (map started_in (history perform cs w)) = 0 \<and>
         rises (map started_in (history perform cs w)) \<le> 1 \<and>
         (\<forall>i j. i \<le> j \<and> j \<le> length cs \<and> started_in (history perform cs w ! i) \<longrightarrow>
            started_in (history perform cs w ! j)) \<and>
         length (history perform_healthcheck cs v) = Suc (length cs) \<and>
         falls (map started_in_healthcheck (history perform_healthcheck cs v)) = 0 \<and>
         rises (map started_in_healthcheck (history perform_healthcheck cs v)) \<le> 1 \<and>
         (\<forall>i j. i \<le> j \<and> j \<le> length cs \<and>
            started_in_healthcheck (history perform_healthcheck cs v ! i) \<longrightarrow>
            started_in_healthcheck (history perform_healthcheck cs v ! j))"
  using history_idle [OF assms(1), of cs] history_flags [OF assms(1), of cs]
    history_nth_mono [OF assms(1), of _ _ cs]
    history_healthcheck_idle [OF assms(2), of cs] history_healthcheck_flags [OF assms(2), of cs]
    history_healthcheck_nth_mono [OF assms(2), of _ _ cs]
  by blast

theorem started_never_reverts_witness:
  "idle (world_with \<lparr>MaxConnections = 10, ConnectionsCounter = 9\<rparr>
           \<lparr>startedL = Unlocked, HC.started = False, port = ''9090''\<rparr> ()) \<and>
   idle_healthcheck (world_with \<lparr>MaxConnections = 10, ConnectionsCounter = 9\<rparr>
           \<lparr>HC_healthcheck.live = True, HC_healthcheck.ready = False, HC_healthcheck.started = False\<rparr>
           \<lparr>readinessMutex = Unlocked, livenessMutex = Unlocked, startupMutex = Unlocked\<rparr>) \<and>
   map started_in
     (history perform [CallIsReady, CallNotifyStarted, CallIsLive, CallNotifyStarted, CallIsReady]
        (world_with \<lparr>MaxConnections = 10, ConnectionsCounter = 9\<rparr>
           \<lparr>startedL = Unlocked, HC.started = False, port = ''9090''\<rparr> ())) =
     [False, False, True, True, True, True] \<and>
   rises (map started_in
     (history perform [CallIsReady, CallNotifyStarted, CallIsLive, CallNotifyStarted, CallIsReady]
        (world_with \<lparr>MaxConnections = 10, ConnectionsCounter = 9\<rparr>
           \<lparr>startedL = Unlocked, HC.started = False, port = ''9090''\<rparr> ()))) \<le> 1 \<and>
   falls (map started_in_healthcheck
     (history perform_healthcheck [CallIsReady, CallNotifyStarted, CallIsLive, CallNotifyStarted, CallIsReady]
        (world_with \<lparr>MaxConnections = 10, ConnectionsCounter = 9\<rparr>
           \<lparr>HC_healthcheck.live = True, HC_healthcheck.ready = False, HC_healthcheck.started = False\<rparr>
           \<lparr>readinessMutex = Unlocked, livenessMutex = Unlocked, startupMutex = Unlocked\<rparr>))) = 0"
proof -
  let ?w = "world_with \<lparr>MaxConnections = 10, ConnectionsCounter = 9\<rparr>
           \<lparr>startedL = Unlocked, HC.started = False, port = ''9090''\<rparr> ()"
  let ?v = "world_with \<lparr>MaxConnections = 10, ConnectionsCounter = 9\<rparr>
           \<lparr>HC_healthcheck.live = True, HC_healthcheck.ready = False, HC_healthcheck.started = False\<rparr>
           \<lparr>readinessMutex = Unlocked, livenessMutex = Unlocked, startupMutex = Unlocked\<rparr>"
  let ?cs = "[CallIsReady, CallNotifyStarted, CallIsLive, CallNotifyStarted, CallIsReady]"
  have iw: "idle ?w" by (simp add: idle_def world_with_def)
  have iv: "idle_healthcheck ?v" by (simp add: idle_healthcheck_def world_with_def)
  have ev: "map started_in (history perform ?cs ?w) = [False, False, True, True, True, True]"
    by code_simp
  show ?thesis
    using started_never_reverts [OF iw iv, of ?cs] iw iv ev
    by simp
qed

text \<open>
  Claim C5. While \<^verbatim>\<open>started\<close> is false the readiness query returns false, whatever the
  connection count and the maximum are; and a tracker just constructed, after any calls
  that do not include the notification, is not ready.
\<close>

theorem isReady_false_before_NotifyStarted:
  assumes "idle w" and "\<not> started_in w"
    and "idle_healthcheck v" and "\<not> started_in_healthcheck v"
    and "CallNotifyStarted \<notin> set cs"
  shows "(\<exists>w'. isReady w = Inr (False, w')) \<and>
         (\<exists>v'. readinessTest v = Inr (False, v')) \<and>
         (\<exists>w'. andthen (NewHealthCheck p None) (\<lambda>_. andthen (run perform cs) (\<lambda>_. isReady)) w =
            Inr (False, w')) \<and>
         (\<exists>v'. andthen NewHealthCheck_healthcheck
                  (\<lambda>_. andthen (run perform_healthcheck cs) (\<lambda>_. readinessTest)) v =
            Inr (False, v'))"
proof -
  from assms(1) obtain c where c: "client w = Some c"
    by (auto simp: idle_def)
  from assms(3) obtain d where d: "client v = Some d"
    by (auto simp: idle_healthcheck_def)
  have m: "startupMutex (globals v) = Unlocked"
    using assms(3) by (simp add: idle_healthcheck_def)
  show ?thesis
    using isReady_idle_world(1) [OF assms(1) c] readinessTest_idle_world(1) [OF assms(3) d]
      isReady_after_calls [OF c, of p cs] readinessTest_after_calls [OF d m, of cs]
      assms(2,4,5)
    by simp
qed

theorem isReady_false_before_NotifyStarted_witness:
  "idle (world_with \<lparr>MaxConnections = 0, ConnectionsCounter = 0\<rparr>
           \<lparr>startedL = Unlocked, HC.started = False, port = ''9090''\<rparr> ()) \<and>
   \<not> started_in (world_with \<lparr>MaxConnections = 0, ConnectionsCounter = 0\<rparr>
           \<lparr>startedL = Unlocked, HC.started = False, port = ''9090''\<rparr> ()) \<and>
   idle_healthcheck (world_with \<lparr>MaxConnections = 10, ConnectionsCounter = 3\<rparr>
           \<lparr>HC_healthcheck.live = True, HC_healthcheck.ready = False, HC_healthcheck.started = False\<rparr>
           \<lparr>readinessMutex = Unlocked, livenessMutex = Unlocked, startupMutex = Unlocked\<rparr>) \<and>
   \<not> started_in_healthcheck (world_with \<lparr>MaxConnections = 10, ConnectionsCounter = 3\<rparr>
           \<lparr>HC_healthcheck.live = True, HC_healthcheck.ready = False, HC_healthcheck.started = False\<rparr>
           \<lparr>readinessMutex = Unlocked, livenessMutex = Unlocked, startupMutex = Unlocked\<rparr>) \<and>
   CallNotifyStarted \<notin> set [CallIsReady, CallIsLive] \<and>
   (\<exists>w'. isReady (world_with \<lparr>MaxConnections = 0, ConnectionsCounter = 0\<rparr>
           \<lparr>startedL = Unlocked, HC.started = False, port = ''9090''\<rparr> ()) = Inr (False, w')) \<and>
   (\<exists>v'. readinessTest (world_with \<lparr>MaxConnections = 10, ConnectionsCounter = 3\<rparr>
           \<lparr>HC_healthcheck.live = True, HC_healthcheck.ready = False, HC_healthcheck.started = False\<rparr>
           \<lparr>readinessMutex = Unlocked, livenessMutex = Unlocked, startupMutex = Unlocked\<rparr>) =
         Inr (False, v')) \<and>
   (\<exists>w'. andthen (NewHealthCheck ''9090'' None)
            (\<lambda>_. andthen (run perform [CallIsReady, CallIsLive]) (\<lambda>_. isReady))
            (world_with \<lparr>MaxConnections = 0, ConnectionsCounter = 0\<rparr>
               \<lparr>startedL = Unlocked, HC.started = False, port = ''9090''\<rparr> ()) = Inr (False, w')) \<and>
   (\<exists>v'. andthen NewHealthCheck_healthcheck
            (\<lambda>_. andthen (run perform_healthcheck [CallIsReady, CallIsLive]) (\<lambda>_. readinessTest))
            (world_with \<lparr>MaxConnections = 10, ConnectionsCounter = 3\<rparr>
               \<lparr>HC_healthcheck.live = True, HC_healthcheck.ready = False, HC_healthcheck.started = False\<rparr>
               \<lparr>readinessMutex = Unlocked, livenessMutex = Unlocked, startupMutex = Unlocked\<rparr>) =
         Inr (False, v'))"
proof -
  let ?w = "world_with \<lparr>MaxConnections = 0, ConnectionsCounter = 0\<rparr>
           \<lparr>startedL = Unlocked, HC.started = False, port = ''9090''\<rparr> ()"
  let ?v = "world_with \<lparr>MaxConnections = 10, ConnectionsCounter = 3\<rparr>
           \<lparr>HC_healthcheck.live = True, HC_healthcheck.ready = False, HC_healthcheck.started = False\<rparr>
           \<lparr>readinessMutex = Unlocked, livenessMutex = Unlocked, startupMutex = Unlocked\<rparr>"
  have iw: "idle ?w" by (simp add: idle_def world_with_def)
  have iv: "idle_healthcheck ?v" by (simp add: idle_healthcheck_def world_with_def)
  have sw: "\<not> started_in ?w" by (simp add: started_in_def world_with_def)
  have sv: "\<not> started_in_healthcheck ?v" by (simp add: started_in_healthcheck_def world_with_def)
  have cs: "CallNotifyStarted \<notin> set [CallIsReady, CallIsLive]" by simp
  show ?thesis
    using isReady_false_before_NotifyStarted [OF iw sw iv sv cs, of "''9090''"] iw iv sw sv
    by simp
qed

text \<open>
  Claim C6. \<^verbatim>\<open>NotifyStarted\<close> (and \<^verbatim>\<open>NotifyReadyForConnections\<close>) called \<open>n \<ge> 1\<close> times in
  a row has the outcome of one call, in every world: the same fault if the first call
  faults, the same world otherwise, and so the same answer of a readiness query that
  follows.
\<close>

theorem NotifyStarted_idempotent:
  assumes "1 \<le> n"
  shows "times n NotifyStarted w = NotifyStarted w \<and>
         andthen (times n NotifyStarted) (\<lambda>_. isReady) w = andthen NotifyStarted (\<lambda>_. isReady) w \<and>
         times n NotifyReadyForConnections v = NotifyReadyForConnections v \<and>
         andthen (times n NotifyReadyForConnections) (\<lambda>_. readinessTest) v =
           andthen NotifyReadyForConnections (\<lambda>_. readinessTest) v"
proof -
  from assms obtain m where n: "n = Suc m" by (cases n) auto
  have a: "\<And>w :: (HC, 'a) world. times n NotifyStarted w = NotifyStarted w"
    unfolding n by (rule times_idempotent) (rule NotifyStarted_again)
  have b: "\<And>v. times n NotifyReadyForConnections v = NotifyReadyForConnections v"
    unfolding n by (rule times_idempotent) (rule NotifyReadyForConnections_again)
  show ?thesis
    by (simp add: a b andthen_def)
qed

theorem NotifyStarted_idempotent_witness:
  "(1::nat) \<le> 3 \<and>
   times 3 NotifyStarted
     (world_with \<lparr>MaxConnections = 10, ConnectionsCounter = 9\<rparr>
        \<lparr>startedL = Unlocked, HC.started = False, port = ''9090''\<rparr> ()) =
     Inr ((), world_with \<lparr>MaxConnections = 10, ConnectionsCounter = 9\<rparr>
        \<lparr>startedL = Unlocked, HC.started = True, port = ''9090''\<rparr> ()) \<and>
   times 3 NotifyReadyForConnections
     (world_with \<lparr>MaxConnections = 10, ConnectionsCounter = 9\<rparr>
        \<lparr>HC_healthcheck.live = True, HC_healthcheck.ready = False, HC_healthcheck.started = False\<rparr>
        \<lparr>readinessMutex = Unlocked, livenessMutex = Unlocked, startupMutex = Unlocked\<rparr>) =
     Inr ((), world_with \<lparr>MaxConnections = 10, ConnectionsCounter = 9\<rparr>
        \<lparr>HC_healthcheck.live = True, HC_healthcheck.ready = False, HC_healthcheck.started = True\<rparr>
        \<lparr>readinessMutex = Unlocked, livenessMutex = Unlocked, startupMutex = Unlocked\<rparr>)"
proof -
  let ?w = "world_with \<lparr>MaxConnections = 10, ConnectionsCounter = 9\<rparr>
        \<lparr>startedL = Unlocked, HC.started = False, port = ''9090''\<rparr> ()"
  let ?v = "world_with \<lparr>MaxConnections = 10, ConnectionsCounter = 9\<rparr>
        \<lparr>HC_healthcheck.live = True, HC_healthcheck.ready = False, HC_healthcheck.started = False\<rparr>
        \<lparr>readinessMutex = Unlocked, livenessMutex = Unlocked, startupMutex = Unlocked\<rparr>"
  have n: "(1::nat) \<le> 3" by simp
  have a: "NotifyStarted ?w =
     Inr ((), world_with \<lparr>MaxConnections = 10, ConnectionsCounter = 9\<rparr>
        \<lparr>startedL = Unlocked, HC.started = True, port = ''9090''\<rparr> ())"
    by (simp add: NotifyStarted_idle [where h = "\<lparr>startedL = Unlocked, HC.started = False, port = ''9090''\<rparr>"]
        world_with_def)
  have b: "NotifyReadyForConnections ?v =
     Inr ((), world_with \<lparr>MaxConnections = 10, ConnectionsCounter = 9\<rparr>
        \<lparr>HC_healthcheck.live = True, HC_healthcheck.ready = False, HC_healthcheck.started = True\<rparr>
        \<lparr>readinessMutex = Unlocked, livenessMutex = Unlocked, startupMutex = Unlocked\<rparr>)"
    by (simp add: NotifyReadyForConnections_idle [where h =
          "\<lparr>HC_healthcheck.live = True, HC_healthcheck.ready = False, HC_healthcheck.started = False\<rparr>"]
        world_with_def)
  show ?thesis
    using NotifyStarted_idempotent [OF n, of ?w ?v] a b
    by simp
qed

text \<open>
  Claim C7. The liveness query returns true in every world, whatever \<^verbatim>\<open>started\<close>, the
  connection count and the maximum are, and (in part_000 and healthcheck.go) leaves the
  world as it was.
\<close>

theorem isLive_always_true:
  "isLive w = Inr (True, w) \<and> livenessTest v = Inr (True, v) \<and>
   (\<exists>u'. livenessTest_part_001 u = Inr (True, u'))"
  by (simp add: isLive_run livenessTest_run livenessTest_part_001_run)

text \<open>
  Claim C8. In part_000 the two queries return a boolean and leave the tracker as it was,
  the mutex released again; of the three calls only \<^verbatim>\<open>NotifyStarted\<close> changes the
  tracker.
\<close>

theorem queries_leave_tracker:
  assumes "idle w" and "c \<noteq> CallNotifyStarted"
  shows "(\<exists>b w'. isReady w = Inr (b, w') \<and> tracker w' = tracker w) \<and>
         isLive w = Inr (True, w) \<and>
         (\<exists>w'. perform c w = Inr ((), w') \<and> tracker w' = tracker w)"
proof -
  from assms(1) obtain cl where cl: "client w = Some cl"
    by (auto simp: idle_def)
  have q: "\<exists>b w'. isReady w = Inr (b, w') \<and> tracker w' = tracker w"
    using isReady_idle_world(1) [OF assms(1) cl] by simp
  have "\<exists>w'. perform c w = Inr ((), w') \<and> tracker w' = tracker w"
  proof (cases c)
    case CallNotifyStarted
    with assms(2) show ?thesis by simp
  next
    case CallIsReady
    with q show ?thesis by (auto simp: andthen_def ret_def)
  next
    case CallIsLive
    then show ?thesis by (simp add: andthen_def ret_def isLive_run)
  qed
  with q show ?thesis by (simp add: isLive_run)
qed

theorem queries_leave_tracker_witness:
  "idle (world_with \<lparr>MaxConnections = 10, ConnectionsCounter = 10\<rparr>
           \<lparr>startedL = Unlocked, HC.started = True, port = ''9090''\<rparr> ()) \<and>
   CallIsReady \<noteq> CallNotifyStarted \<and>
   (\<exists>b w'. isReady (world_with \<lparr>MaxConnections = 10, ConnectionsCounter = 10\<rparr>
           \<lparr>startedL = Unlocked, HC.started = True, port = ''9090''\<rparr> ()) = Inr (b, w') \<and>
      tracker w' = Some \<lparr>startedL = Unlocked, HC.started = True, port = ''9090''\<rparr>) \<and>
   (\<exists>w'. perform CallIsReady (world_with \<lparr>MaxConnections = 10, ConnectionsCounter = 10\<rparr>
           \<lparr>startedL = Unlocked, HC.started = True, port = ''9090''\<rparr> ()) = Inr ((), w') \<and>
      tracker w' = Some \<lparr>startedL = Unlocked, HC.started = True, port = ''9090''\<rparr>)"
proof -
  let ?w = "world_with \<lparr>MaxConnections = 10, ConnectionsCounter = 10\<rparr>
           \<lparr>startedL = Unlocked, HC.started = True, port = ''9090''\<rparr> ()"
  have iw: "idle ?w" by (simp add: idle_def world_with_def)
  have c: "CallIsReady \<noteq> CallNotifyStarted" by simp
  have tw: "tracker ?w = Some \<lparr>startedL = Unlocked, HC.started = True, port = ''9090''\<rparr>"
    by (simp add: world_with_def)
  show ?thesis
    using queries_leave_tracker [OF iw c] iw tw
    by simp
qed

text \<open>
  Claim C9. The \<^verbatim>\<open>readinessTest\<close> of part_001 restores the counter in every world
  (\<open>readinessTest_part_001_run\<close>) and, on a started tracker, returns what \<^verbatim>\<open>isReady\<close>
  returns as long as the count is not \<open>2^64 - 1\<close> (\<open>readinessTest_part_001_agrees\<close>). At
  the count \<open>2^64 - 1\<close> the increment wraps to zero and the two differ under every
  positive maximum; here under the maximum 1:
\<close>

theorem readinessTest_part_001_differs_from_isReady:
  "(\<exists>u'. readinessTest_part_001
            (world_with \<lparr>MaxConnections = 1, ConnectionsCounter = 18446744073709551615\<rparr>
               \<lparr>live = True, ready = False, started = True\<rparr> ()) = Inr (True, u')) \<and>
   (\<exists>w'. isReady
            (world_with \<lparr>MaxConnections = 1, ConnectionsCounter = 18446744073709551615\<rparr>
               \<lparr>startedL = Unlocked, HC.started = True, port = ''9090''\<rparr> ()) = Inr (False, w'))"
proof -
  let ?c = "\<lparr>MaxConnections = 1, ConnectionsCounter = 18446744073709551615\<rparr>"
  let ?u = "world_with ?c \<lparr>live = True, ready = False, started = True\<rparr> ()"
  let ?w = "world_with ?c \<lparr>startedL = Unlocked, HC.started = True, port = ''9090''\<rparr> ()"
  have "readinessTest_part_001 ?u = Inr (True, ?u\<lparr>trace := trace ?u @ events_of readinessTest_part_001 ?u\<rparr>)"
    by (rule readinessTest_part_001_wrapped [where e = ?c and k = "\<lparr>live = True, ready = False, started = True\<rparr>"])
      (simp_all add: world_with_def)
  moreover have "isReady ?w =
      Inr (started_in ?w \<and> (MaxConnections ?c = 0 \<or> ConnectionsCounter ?c < MaxConnections ?c),
           ?w\<lparr>trace := trace ?w @ events_of isReady ?w\<rparr>)"
    by (rule isReady_idle_world(1)) (simp_all add: world_with_def idle_def)
  ultimately show ?thesis by simp
qed

text \<open>
  Claim C10. \<^verbatim>\<open>NotifyReadyForConnections\<close> on a nil tracker returns and changes nothing,
  whatever state the mutex is in; and in no world at all does it stop on a nil pointer.
\<close>

theorem NotifyReadyForConnections_on_nil:
  "NotifyReadyForConnections (v\<lparr>tracker := None\<rparr>) = Inr ((), v\<lparr>tracker := None\<rparr>) \<and>
   NotifyReadyForConnections v \<noteq> Inl NilPointerDereference"
  by (simp add: NotifyReadyForConnections_nil NotifyReadyForConnections_no_nil_panic)

end
